theory Spec2Isabelle
  imports Main "HOL-Library.Word"
begin

section \<open>Data model of \<open>udsoncan/connections.py\<close>\<close>

text \<open>
  A frame is an opaque byte string. The queue \<open>rxqueue\<close> is Python's \<open>queue.Queue()\<close>:
  unbounded, first in first out; \<open>put\<close> appends at the back, \<open>get\<close> removes the front.
\<close>

type_synonym bytes = "8 word list"

text \<open>
  One call of \<open>sock.recv(bufsize)\<close> / \<open>tpsock.recv()\<close> either returns a value (a byte
  string, possibly empty, or Python's \<open>None\<close>), raises \<open>socket.timeout\<close>, or raises
  some other \<open>Exception\<close>.
\<close>

datatype recv_outcome = Returns "bytes option" | RaisesTimeout | RaisesException

text \<open>
  The transport handle (\<open>self.sock\<close>, \<open>self.tpsock\<close>) is an external object. Its state
  here is what the connection code can observe of it: the outcomes of the coming
  \<open>recv\<close> calls in order (once they are used up the transport is idle and every
  \<open>recv\<close> raises \<open>socket.timeout\<close>), the number of \<open>recv\<close> calls made, the payloads
  handed to \<open>send\<close> in order, the \<open>bound\<close> attribute that \<open>IsoTPConnection.is_open\<close>
  reads, and whether \<open>close()\<close> has been called on it.
\<close>

record transport =
  incoming :: "recv_outcome list"
  recv_calls :: nat
  sent :: "bytes list"
  bound :: bool
  closed :: bool

definition transport_recv :: "transport \<Rightarrow> recv_outcome \<times> transport" where
  "transport_recv s =
     (case incoming s of
        [] \<Rightarrow> (RaisesTimeout, s\<lparr>recv_calls := Suc (recv_calls s)\<rparr>)
      | r # rs \<Rightarrow> (r, s\<lparr>incoming := rs, recv_calls := Suc (recv_calls s)\<rparr>))"

definition transport_send :: "bytes \<Rightarrow> transport \<Rightarrow> transport" where
  "transport_send payload s = s\<lparr>sent := sent s @ [payload]\<rparr>"

definition transport_bind :: "transport \<Rightarrow> transport" where
  "transport_bind s = s\<lparr>bound := True\<rparr>"

definition transport_close :: "transport \<Rightarrow> transport" where
  "transport_close s = s\<lparr>bound := False, closed := True\<rparr>"

text \<open>
  \<open>threading.Thread\<close>: \<open>start()\<close> may be called once per thread object; a second call
  raises \<open>RuntimeError("threads can only be started once")\<close>. The thread is alive
  from \<open>start()\<close> until its target function returns.
\<close>

datatype thread_state = Unstarted | Alive | Finished

datatype error =
    RuntimeError string
  | TimeoutException int
  | Empty
  | ValueError
  | OverflowError

text \<open>The two concrete classes derived from \<open>BaseConnection\<close>.\<close>

datatype variant = Stream | IsoTP

record connection =
  variant :: variant
  rxqueue :: "bytes list"
  exit_requested :: bool
  opened :: bool
  rxthread :: thread_state
  sock :: transport

text \<open>
  The argument of \<open>BaseConnection.send\<close>: a \<open>Request\<close>, a \<open>Response\<close> (classes of
  \<open>udsoncan.Request\<close> and \<open>udsoncan.Response\<close>, whose \<open>get_payload\<close> is a parameter of
  \<open>send\<close> below), or a byte string.
\<close>

datatype 'm send_obj = Request 'm | Response 'm | Other bytes

section \<open>Constructors\<close>

text \<open>
  \<open>__init__\<close> of the two classes: an empty queue, both flags false, a thread object
  not yet started, and the transport handle. The logger name, \<open>bufsize\<close>, the
  addressing (\<open>interface\<close>, \<open>rxid\<close>, \<open>txid\<close>) and the transport's own receive timeout
  have no part in what follows and are left out.
\<close>

definition SocketConnection :: "transport \<Rightarrow> connection" where
  "SocketConnection s =
     \<lparr>variant = Stream, rxqueue = [], exit_requested = False, opened = False,
      rxthread = Unstarted, sock = s\<rparr>"

definition IsoTPConnection :: "transport \<Rightarrow> connection" where
  "IsoTPConnection s =
     \<lparr>variant = IsoTP, rxqueue = [], exit_requested = False, opened = False,
      rxthread = Unstarted, sock = s\<rparr>"

section \<open>The receive loop\<close>

text \<open>
  The body of the \<open>while\<close> loop of \<open>rxthread_task\<close>:
  \<^verbatim>\<open>
  try:
      data = self.sock.recv(self.bufsize)
      if data is not None:
          self.rxqueue.put(data)
  except socket.timeout:
      pass
  except Exception:
      self.exit_requested = True
  \<close>
\<close>

definition rxthread_iteration :: "connection \<Rightarrow> connection" where
  "rxthread_iteration c =
     (case transport_recv (sock c) of
        (Returns (Some data), s) \<Rightarrow> c\<lparr>rxqueue := rxqueue c @ [data], sock := s\<rparr>
      | (Returns None, s) \<Rightarrow> c\<lparr>sock := s\<rparr>
      | (RaisesTimeout, s) \<Rightarrow> c\<lparr>sock := s\<rparr>
      | (RaisesException, s) \<Rightarrow> c\<lparr>exit_requested := True, sock := s\<rparr>)"

text \<open>
  \<open>while not self.exit_requested: ...\<close>. The loop has no bound of its own, so the
  first argument counts the evaluations of the loop condition that are run; when the
  condition fails the target function returns and the thread is finished.
\<close>

fun rxthread_task :: "nat \<Rightarrow> connection \<Rightarrow> connection" where
  "rxthread_task 0 c = c"
| "rxthread_task (Suc n) c =
     (if \<not> exit_requested c then rxthread_task n (rxthread_iteration c)
      else c\<lparr>rxthread := Finished\<rparr>)"

text \<open>
  The background thread runs \<open>rxthread_task\<close> only between \<open>start()\<close> and the return
  of the loop. \<open>background n c\<close> is the connection after the thread, if alive, has been
  scheduled for \<open>n\<close> more evaluations of its loop condition. One scheduled step is one
  whole pass of the loop: the test of \<open>exit_requested\<close> and, when it passes, the body.
  Calls of the caller's thread are placed between passes: a call made while a pass is in
  flight is ordered after that pass.
\<close>

definition background :: "nat \<Rightarrow> connection \<Rightarrow> connection" where
  "background n c = (if rxthread c = Alive then rxthread_task n c else c)"

section \<open>Lifecycle\<close>

definition thread_start :: "connection \<Rightarrow> (error + unit) \<times> connection" where
  "thread_start c =
     (if rxthread c \<noteq> Unstarted
      then (Inl (RuntimeError ''threads can only be started once''), c)
      else (Inr (), c\<lparr>rxthread := Alive\<rparr>))"

text \<open>
  \<open>open\<close>: \<open>IsoTPConnection\<close> binds its socket first; then both classes clear
  \<open>exit_requested\<close>, start \<open>self.rxthread\<close> (created once, in \<open>__init__\<close>) and set
  \<open>opened\<close>. An exception of \<open>start()\<close> leaves the assignments before it in place.
\<close>

definition open_connection :: "connection \<Rightarrow> (error + unit) \<times> connection" where
  "open_connection c =
     (let c1 = (case variant c of
                  Stream \<Rightarrow> c
                | IsoTP \<Rightarrow> c\<lparr>sock := transport_bind (sock c)\<rparr>);
          c2 = c1\<lparr>exit_requested := False\<rparr>
      in case thread_start c2 of
           (Inl e, c3) \<Rightarrow> (Inl e, c3)
         | (Inr u, c3) \<Rightarrow> (Inr (), c3\<lparr>opened := True\<rparr>))"

definition is_open :: "connection \<Rightarrow> bool" where
  "is_open c = (case variant c of Stream \<Rightarrow> opened c | IsoTP \<Rightarrow> bound (sock c))"

definition close :: "connection \<Rightarrow> connection" where
  "close c =
     (case variant c of
        Stream \<Rightarrow> c\<lparr>exit_requested := True, opened := False\<rparr>
      | IsoTP \<Rightarrow>
          c\<lparr>exit_requested := True, sock := transport_close (sock c), opened := False\<rparr>)"

section \<open>Sending\<close>

text \<open>
  \<open>BaseConnection.send\<close> picks the payload, logs it and calls \<open>specific_send\<close>, which
  in both classes hands it to the transport's \<open>send\<close>. Neither looks at \<open>opened\<close>. The
  debug log lines of \<open>send\<close> and \<open>wait_frame\<close> are left out.
\<close>

definition specific_send :: "bytes \<Rightarrow> connection \<Rightarrow> connection" where
  "specific_send payload c = c\<lparr>sock := transport_send payload (sock c)\<rparr>"

definition send :: "('m \<Rightarrow> bytes) \<Rightarrow> 'm send_obj \<Rightarrow> connection \<Rightarrow> connection" where
  "send get_payload obj c =
     (let payload = (case obj of
                       Request r \<Rightarrow> get_payload r
                     | Response r \<Rightarrow> get_payload r
                     | Other b \<Rightarrow> b)
      in specific_send payload c)"

section \<open>Waiting for a frame\<close>

text \<open>
  \<open>self.rxqueue.get(block=True, timeout=timeout)\<close> of Python's \<open>queue.Queue\<close>, for a
  timeout that is a whole number of time units (\<open>None\<close>, which waits for ever, and
  fractional or non-finite values are outside this model):
  \<^verbatim>\<open>
  elif timeout < 0:
      raise ValueError("'timeout' must be a non-negative number")
  else:
      endtime = time() + timeout
      while not self._qsize():
          remaining = endtime - time()
          if remaining <= 0.0:
              raise Empty
          self.not_empty.wait(remaining)
  item = self._get()
  \<close>
  \<open>not_empty.wait(remaining)\<close> raises \<open>OverflowError\<close> when \<open>remaining\<close> is above
  \<open>threading.TIMEOUT_MAX\<close>, a constant of the platform; it is the parameter
  \<open>timeout_max\<close> of the functions below, in the time unit of the model. While the
  caller is blocked in \<open>wait\<close> the background thread runs. Time is counted in
  evaluations of the receive loop's condition: each unit of waiting lets the background
  thread run one of them, and the queue is looked at before each.
\<close>

fun queue_get_wait :: "int \<Rightarrow> nat \<Rightarrow> connection \<Rightarrow> (error + bytes) \<times> connection" where
  "queue_get_wait timeout_max 0 c =
     (case rxqueue c of
        [] \<Rightarrow> (Inl Empty, c)
      | f # fs \<Rightarrow> (Inr f, c\<lparr>rxqueue := fs\<rparr>))"
| "queue_get_wait timeout_max (Suc remaining) c =
     (case rxqueue c of
        [] \<Rightarrow>
          (if timeout_max < int (Suc remaining) then (Inl OverflowError, c)
           else queue_get_wait timeout_max remaining (background (Suc 0) c))
      | f # fs \<Rightarrow> (Inr f, c\<lparr>rxqueue := fs\<rparr>))"

definition queue_get :: "int \<Rightarrow> int \<Rightarrow> connection \<Rightarrow> (error + bytes) \<times> connection" where
  "queue_get timeout_max timeout c =
     (if timeout < 0 then (Inl ValueError, c)
      else queue_get_wait timeout_max (nat timeout) c)"

text \<open>
  \<open>specific_wait_frame\<close>, the same in both classes up to the text of the message:
  only \<open>queue.Empty\<close> is caught; any other exception of \<open>get\<close> propagates to the caller
  whatever the \<open>exception\<close> flag.
\<close>

definition specific_wait_frame ::
  "int \<Rightarrow> int \<Rightarrow> bool \<Rightarrow> connection \<Rightarrow> (error + bytes option) \<times> connection" where
  "specific_wait_frame timeout_max timeout exception c =
     (if \<not> opened c
      then (if exception
            then (Inl (RuntimeError ''Connection is not opened''), c)
            else (Inr None, c))
      else (case queue_get timeout_max timeout c of
              (Inr frame, c') \<Rightarrow> (Inr (Some frame), c')
            | (Inl Empty, c') \<Rightarrow>
                (if exception then (Inl (TimeoutException timeout), c')
                 else (Inr None, c'))
            | (Inl e, c') \<Rightarrow> (Inl e, c')))"

definition wait_frame ::
  "int \<Rightarrow> int \<Rightarrow> bool \<Rightarrow> connection \<Rightarrow> (error + bytes option) \<times> connection" where
  "wait_frame timeout_max timeout exception c =
     specific_wait_frame timeout_max timeout exception c"

text \<open>
  \<open>empty_rxqueue\<close>: \<open>while not self.rxqueue.empty(): self.rxqueue.get()\<close>.
\<close>

function empty_rxqueue :: "connection \<Rightarrow> connection" where
  "empty_rxqueue c =
     (if rxqueue c \<noteq> [] then empty_rxqueue (c\<lparr>rxqueue := tl (rxqueue c)\<rparr>) else c)"
  by pat_completeness auto
termination
  by (relation "measure (\<lambda>c. length (rxqueue c))") auto

declare empty_rxqueue.simps [simp del]

section \<open>Traces and callers\<close>

text \<open>
  The frames among a sequence of \<open>recv\<close> outcomes: every returned value other than
  \<open>None\<close>, in order of receipt.
\<close>

fun frames_of :: "recv_outcome list \<Rightarrow> bytes list" where
  "frames_of [] = []"
| "frames_of (Returns (Some data) # rs) = data # frames_of rs"
| "frames_of (r # rs) = frames_of rs"

text \<open>
  A caller making successive \<open>wait_frame\<close> calls with one timeout. Each call is given
  as a pair: the number of steps the background thread runs before the call, and the
  \<open>exception\<close> flag of the call. The outcomes (a returned value or the exception
  raised) are collected in call order; the caller goes on after an exception.
\<close>

fun wait_frames ::
  "int \<Rightarrow> int \<Rightarrow> (nat \<times> bool) list \<Rightarrow> connection
     \<Rightarrow> (error + bytes option) list \<times> connection" where
  "wait_frames timeout_max timeout [] c = ([], c)"
| "wait_frames timeout_max timeout ((g, exception) # calls) c =
     (case wait_frame timeout_max timeout exception (background g c) of
        (r, c') \<Rightarrow>
          (case wait_frames timeout_max timeout calls c' of (rs, c'') \<Rightarrow> (r # rs, c'')))"

text \<open>
  What a call that finds no frame within its timeout yields: the exception when the
  flag is set, \<open>None\<close> otherwise.
\<close>

definition timed_out :: "int \<Rightarrow> bool \<Rightarrow> error + bytes option" where
  "timed_out timeout exception =
     (if exception then Inl (TimeoutException timeout) else Inr None)"

text \<open>
  A connection in normal operation: opened, its receive loop running and not told to
  stop, and no coming transport read failing with an exception other than the timeout.
\<close>

definition receiving :: "connection \<Rightarrow> bool" where
  "receiving c \<longleftrightarrow>
     opened c \<and> rxthread c = Alive \<and> \<not> exit_requested c
     \<and> RaisesException \<notin> set (incoming (sock c))"

text \<open>
  The frames received or still to be received that no caller has taken yet, in order of
  receipt: the queue, then the frames among the coming \<open>recv\<close> outcomes.
\<close>

definition pending :: "connection \<Rightarrow> bytes list" where
  "pending c = rxqueue c @ frames_of (incoming (sock c))"

text \<open>A fresh transport handle on which the given \<open>recv\<close> outcomes are still to come.\<close>

definition new_transport :: "recv_outcome list \<Rightarrow> transport" where
  "new_transport rs =
     \<lparr>incoming = rs, recv_calls = 0, sent = [], bound = False, closed = False\<rparr>"

lemmas eval_defs = new_transport_def SocketConnection_def IsoTPConnection_def
  open_connection_def thread_start_def background_def rxthread_iteration_def
  transport_recv_def close_def is_open_def transport_bind_def transport_close_def

section \<open>The background thread: what it leaves unchanged\<close>

lemma sock_rxthread_iteration: "sock (rxthread_iteration c) = snd (transport_recv (sock c))"
  by (auto simp: rxthread_iteration_def split: prod.splits recv_outcome.splits option.splits)

lemma rxthread_iteration_rxthread [simp]: "rxthread (rxthread_iteration c) = rxthread c"
  by (simp add: rxthread_iteration_def split: prod.splits recv_outcome.splits option.splits)

lemma rxthread_iteration_opened [simp]: "opened (rxthread_iteration c) = opened c"
  by (simp add: rxthread_iteration_def split: prod.splits recv_outcome.splits option.splits)

lemma rxthread_iteration_variant [simp]: "variant (rxthread_iteration c) = variant c"
  by (simp add: rxthread_iteration_def split: prod.splits recv_outcome.splits option.splits)

lemma transport_recv_bound [simp]: "bound (snd (transport_recv s)) = bound s"
  by (simp add: transport_recv_def split: list.splits)

lemma rxthread_iteration_bound [simp]: "bound (sock (rxthread_iteration c)) = bound (sock c)"
  by (simp add: sock_rxthread_iteration)

lemma rxthread_task_opened [simp]: "opened (rxthread_task n c) = opened c"
  by (induction n arbitrary: c) simp_all

lemma rxthread_task_variant [simp]: "variant (rxthread_task n c) = variant c"
  by (induction n arbitrary: c) simp_all

lemma rxthread_task_bound [simp]: "bound (sock (rxthread_task n c)) = bound (sock c)"
  by (induction n arbitrary: c) simp_all

lemma background_opened [simp]: "opened (background n c) = opened c"
  by (simp add: background_def)

lemma background_variant [simp]: "variant (background n c) = variant c"
  by (simp add: background_def)

lemma background_is_open [simp]: "is_open (background n c) = is_open c"
  by (simp add: is_open_def background_def split: variant.splits)

lemma background_0 [simp]: "background 0 c = c"
  by (simp add: background_def)

text \<open>Scheduling the thread for \<open>m\<close> and then \<open>n\<close> steps is scheduling it for \<open>m + n\<close>.\<close>

lemma rxthread_task_add:
  "rxthread c = Alive \<Longrightarrow> rxthread_task (m + n) c = background n (rxthread_task m c)"
proof (induction m arbitrary: c)
  case 0
  then show ?case by (simp add: background_def)
next
  case (Suc m)
  then show ?case by (simp add: background_def)
qed

lemma background_add: "background (m + n) c = background n (background m c)"
proof (cases "rxthread c = Alive")
  case True
  then show ?thesis using rxthread_task_add [of c m n] by (simp add: background_def)
next
  case False
  then show ?thesis by (simp add: background_def)
qed

lemma background_Suc: "background (Suc n) c = background n (background (Suc 0) c)"
  using background_add [of "Suc 0" n c] by simp

section \<open>The blocking \<open>get\<close>\<close>

lemma queue_get_wait_timeout:
  "int n \<le> tmax \<Longrightarrow> \<forall>i\<le>n. rxqueue (background i c) = [] \<Longrightarrow>
   queue_get_wait tmax n c = (Inl Empty, background n c)"
proof (induction n arbitrary: c)
  case 0
  then show ?case by simp
next
  case (Suc n)
  have q: "rxqueue c = []" using Suc.prems(2) [rule_format, of 0] by simp
  have m: "int n \<le> tmax" "\<not> tmax < int (Suc n)" using Suc.prems(1) by simp_all
  have "\<forall>i\<le>n. rxqueue (background i (background (Suc 0) c)) = []"
  proof (intro allI impI)
    fix i assume "i \<le> n"
    then have "rxqueue (background (Suc i) c) = []" using Suc.prems(2) by simp
    then show "rxqueue (background i (background (Suc 0) c)) = []"
      by (simp add: background_Suc [of i c])
  qed
  then have "queue_get_wait tmax n (background (Suc 0) c)
      = (Inl Empty, background n (background (Suc 0) c))"
    by (rule Suc.IH [OF m(1)])
  then show ?case using q m(2) by (simp add: background_Suc [of n c])
qed

lemma queue_get_wait_front:
  "rxqueue c = f # fs \<Longrightarrow> queue_get_wait tmax n c = (Inr f, c\<lparr>rxqueue := fs\<rparr>)"
  by (cases n) simp_all

lemma queue_get_wait_overflow:
  "rxqueue c = [] \<Longrightarrow> 0 < n \<Longrightarrow> tmax < int n \<Longrightarrow>
   queue_get_wait tmax n c = (Inl OverflowError, c)"
  by (cases n) simp_all


section \<open>\<open>wait_frame\<close>: its outcomes\<close>

lemma wait_frame_not_opened:
  "\<not> opened c \<Longrightarrow>
   wait_frame tmax t e c =
     ((if e then Inl (RuntimeError ''Connection is not opened'') else Inr None), c)"
  by (simp add: wait_frame_def specific_wait_frame_def)

lemma wait_frame_negative:
  "opened c \<Longrightarrow> t < 0 \<Longrightarrow> wait_frame tmax t e c = (Inl ValueError, c)"
  by (simp add: wait_frame_def specific_wait_frame_def queue_get_def)

lemma wait_frame_overflow:
  assumes "opened c" "rxqueue c = []" "0 < t" "tmax < t"
  shows "wait_frame tmax t e c = (Inl OverflowError, c)"
proof -
  have "queue_get_wait tmax (nat t) c = (Inl OverflowError, c)"
    using assms by (intro queue_get_wait_overflow) simp_all
  then show ?thesis using assms(1,3)
    by (simp add: wait_frame_def specific_wait_frame_def queue_get_def)
qed

lemma wait_frame_timed_out:
  assumes "opened c" "0 \<le> t" "t \<le> tmax" "\<forall>i\<le>nat t. rxqueue (background i c) = []"
  shows "wait_frame tmax t e c = (timed_out t e, background (nat t) c)"
proof -
  have "int (nat t) \<le> tmax" using assms(2,3) by simp
  from queue_get_wait_timeout [OF this assms(4)] show ?thesis using assms(1,2)
    by (simp add: wait_frame_def specific_wait_frame_def queue_get_def timed_out_def)
qed

lemma wait_frame_front:
  "opened c \<Longrightarrow> 0 \<le> t \<Longrightarrow> rxqueue c = f # fs \<Longrightarrow>
   wait_frame tmax t e c = (Inr (Some f), c\<lparr>rxqueue := fs\<rparr>)"
  by (simp add: wait_frame_def specific_wait_frame_def queue_get_def queue_get_wait_front)


lemma wait_frames_Cons_fst:
  "fst (wait_frames tmax t ((g, e) # calls) c) =
   fst (wait_frame tmax t e (background g c))
   # fst (wait_frames tmax t calls (snd (wait_frame tmax t e (background g c))))"
  by (simp split: prod.splits)

lemma wait_frames_Cons_snd:
  "snd (wait_frames tmax t ((g, e) # calls) c) =
   snd (wait_frames tmax t calls (snd (wait_frame tmax t e (background g c))))"
  by (simp split: prod.splits)

section \<open>Sending and closing\<close>

lemma send_eq:
  "send gp obj c =
   c\<lparr>sock := (sock c)\<lparr>sent := sent (sock c) @
      [case obj of Request r \<Rightarrow> gp r | Response r \<Rightarrow> gp r | Other b \<Rightarrow> b]\<rparr>\<rparr>"
  by (simp add: send_def specific_send_def transport_send_def)

lemma close_not_opened [simp]: "\<not> opened (close c)"
  by (simp add: close_def split: variant.splits)

lemma rxthread_task_stopped:
  "exit_requested c \<Longrightarrow> rxthread_task n c = (if n = 0 then c else c\<lparr>rxthread := Finished\<rparr>)"
  by (cases n) simp_all

lemma background_stopped:
  "exit_requested c \<Longrightarrow> sock (background n c) = sock c \<and> rxqueue (background n c) = rxqueue c
     \<and> exit_requested (background n c)"
  by (simp add: background_def rxthread_task_stopped)

lemma close_exit_requested [simp]: "exit_requested (close c)"
  by (simp add: close_def split: variant.splits)

lemma close_rxqueue [simp]: "rxqueue (close c) = rxqueue c"
  by (simp add: close_def split: variant.splits)

section \<open>What the loop pushes, and the drain\<close>

lemma frames_of_append: "frames_of (xs @ ys) = frames_of xs @ frames_of ys"
  by (induction xs rule: frames_of.induct) simp_all

lemma rxthread_iteration_rxqueue:
  "rxqueue (rxthread_iteration c) = rxqueue c @ frames_of [fst (transport_recv (sock c))]"
  by (auto simp: rxthread_iteration_def split: prod.splits recv_outcome.splits option.splits)

lemma rxthread_task_rxqueue:
  "\<not> exit_requested c \<Longrightarrow>
   rxqueue (rxthread_task n c) =
   rxqueue c @ frames_of (takeWhile (\<lambda>r. r \<noteq> RaisesException) (take n (incoming (sock c))))"
proof (induction n arbitrary: c)
  case 0
  then show ?case by simp
next
  case (Suc n)
  show ?case
  proof (cases "incoming (sock c)")
    case Nil
    then have i: "rxthread_iteration c = c\<lparr>sock := (sock c)\<lparr>recv_calls := Suc (recv_calls (sock c))\<rparr>\<rparr>"
      by (simp add: rxthread_iteration_def transport_recv_def)
    have "\<not> exit_requested (rxthread_iteration c)" using Suc.prems i by simp
    from Suc.IH [OF this] show ?thesis using Suc.prems Nil i by simp
  next
    case (Cons r rs)
    show ?thesis
    proof (cases "r = RaisesException")
      case True
      with Cons have i: "rxthread_iteration c =
          c\<lparr>exit_requested := True, sock := (sock c)\<lparr>incoming := rs, recv_calls := Suc (recv_calls (sock c))\<rparr>\<rparr>"
        by (simp add: rxthread_iteration_def transport_recv_def)
      show ?thesis using Suc.prems Cons True i by (simp add: rxthread_task_stopped)
    next
      case False
      with Cons have i: "\<not> exit_requested (rxthread_iteration c)
          \<and> incoming (sock (rxthread_iteration c)) = rs
          \<and> rxqueue (rxthread_iteration c) = rxqueue c @ frames_of [r]"
        using Suc.prems
        by (cases r) (auto simp: rxthread_iteration_def transport_recv_def split: option.splits)
      then have "\<not> exit_requested (rxthread_iteration c)" by simp
      from Suc.IH [OF this] i have
        "rxqueue (rxthread_task n (rxthread_iteration c)) =
         (rxqueue c @ frames_of [r]) @ frames_of (takeWhile (\<lambda>r. r \<noteq> RaisesException) (take n rs))"
        by simp
      moreover have "frames_of [r] @ frames_of xs = frames_of (r # xs)" for xs
        using frames_of_append [of "[r]" xs] by simp
      ultimately show ?thesis using Suc.prems Cons False by simp
    qed
  qed
qed

lemma empty_rxqueue_eq: "empty_rxqueue c = c\<lparr>rxqueue := []\<rparr>"
proof (induction c rule: empty_rxqueue.induct)
  case (1 c)
  show ?case
  proof (cases "rxqueue c = []")
    case True
    then show ?thesis by (subst empty_rxqueue.simps) simp
  next
    case False
    with 1 have "empty_rxqueue (c\<lparr>rxqueue := tl (rxqueue c)\<rparr>) = c\<lparr>rxqueue := []\<rparr>"
      by simp
    then show ?thesis using False by (subst empty_rxqueue.simps) simp
  qed
qed

section \<open>After the loop has been told to stop\<close>

lemma background_stopped_state:
  "exit_requested c \<Longrightarrow> opened (background n c) = opened c \<and> exit_requested (background n c)
     \<and> rxqueue (background n c) = rxqueue c"
  using background_stopped [of c n] by simp

lemma wait_frame_stopped_empty:
  assumes "opened c" "exit_requested c" "0 \<le> t" "t \<le> tmax" "rxqueue c = []"
  shows "wait_frame tmax t e c = (timed_out t e, background (nat t) c)"
proof -
  have "\<forall>i\<le>nat t. rxqueue (background i c) = []"
    using background_stopped [OF assms(2)] assms(5) by simp
  from wait_frame_timed_out [OF assms(1) assms(3) assms(4) this] show ?thesis .
qed

lemma background_finishes:
  "rxthread c = Alive \<Longrightarrow> exit_requested c \<Longrightarrow> background (Suc n) c = c\<lparr>rxthread := Finished\<rparr>"
  by (simp add: background_def)

lemma wait_frames_stopped:
  "opened c \<Longrightarrow> exit_requested c \<Longrightarrow> 0 \<le> t \<Longrightarrow> t \<le> tmax \<Longrightarrow>
   fst (wait_frames tmax t calls c) =
     map (\<lambda>f. Inr (Some f)) (take (length calls) (rxqueue c))
     @ map (\<lambda>call. timed_out t (snd call)) (drop (length (rxqueue c)) calls)"
proof (induction calls arbitrary: c)
  case Nil
  then show ?case by simp
next
  case (Cons call calls)
  obtain g e where call: "call = (g, e)" by (cases call)
  let ?b = "background g c"
  have b: "opened ?b" "exit_requested ?b" "rxqueue ?b = rxqueue c"
    using Cons.prems background_stopped_state [of c g] by simp_all
  show ?case
  proof (cases "rxqueue c")
    case Nil
    let ?d = "background (nat t) ?b"
    have w: "wait_frame tmax t e ?b = (timed_out t e, ?d)"
      using wait_frame_stopped_empty [OF b(1) b(2) Cons.prems(3) Cons.prems(4), of e] b(3) Nil
      by simp
    have d: "opened ?d" "exit_requested ?d" "rxqueue ?d = []"
      using b Nil background_stopped_state [of ?b "nat t"] by simp_all
    from Cons.IH [OF d(1) d(2) Cons.prems(3) Cons.prems(4)] d(3) w Nil show ?thesis
      unfolding call by (simp only: wait_frames_Cons_fst) simp
  next
    case (Cons f fs)
    let ?d = "?b\<lparr>rxqueue := fs\<rparr>"
    have w: "wait_frame tmax t e ?b = (Inr (Some f), ?d)"
      using wait_frame_front [OF b(1) Cons.prems(3), of f fs tmax e] b(3) Cons by simp
    have d: "opened ?d" "exit_requested ?d" "rxqueue ?d = fs"
      using b by simp_all
    from Cons.IH [OF d(1) d(2) Cons.prems(3) Cons.prems(4)] d(3) w Cons show ?thesis
      unfolding call by (simp only: wait_frames_Cons_fst) simp
  qed
qed

lemma failing_read:
  assumes "rxthread c = Alive" "\<not> exit_requested c" "incoming (sock c) = RaisesException # rest"
  shows "background (Suc 0) c =
         c\<lparr>exit_requested := True,
           sock := (sock c)\<lparr>incoming := rest, recv_calls := Suc (recv_calls (sock c))\<rparr>\<rparr>"
  using assms by (simp add: background_def rxthread_iteration_def transport_recv_def)

section \<open>Order of delivery\<close>

lemma rxthread_iteration_receiving:
  assumes "receiving c"
  shows "receiving (rxthread_iteration c) \<and> pending (rxthread_iteration c) = pending c
       \<and> length (incoming (sock (rxthread_iteration c))) = length (incoming (sock c)) - 1"
proof (cases "incoming (sock c)")
  case Nil
  with assms show ?thesis
    by (simp add: receiving_def pending_def rxthread_iteration_def transport_recv_def)
next
  case (Cons r rs)
  with assms have r: "r \<noteq> RaisesException" by (auto simp: receiving_def)
  show ?thesis
  proof (cases r)
    case (Returns d)
    with assms Cons show ?thesis
      by (cases d) (simp_all add: receiving_def pending_def rxthread_iteration_def transport_recv_def)
  next
    case RaisesTimeout
    with assms Cons show ?thesis
      by (simp add: receiving_def pending_def rxthread_iteration_def transport_recv_def)
  next
    case RaisesException
    with r show ?thesis by simp
  qed
qed

lemma background_one_receiving:
  assumes "receiving c"
  shows "receiving (background (Suc 0) c) \<and> pending (background (Suc 0) c) = pending c
       \<and> length (incoming (sock (background (Suc 0) c))) = length (incoming (sock c)) - 1"
proof -
  have "background (Suc 0) c = rxthread_iteration c"
    using assms by (simp add: background_def receiving_def)
  then show ?thesis using rxthread_iteration_receiving [OF assms] by simp
qed

lemma background_receiving:
  "receiving c \<Longrightarrow>
   receiving (background n c) \<and> pending (background n c) = pending c
   \<and> length (incoming (sock (background n c))) \<le> length (incoming (sock c))"
proof (induction n arbitrary: c)
  case 0
  then show ?case by simp
next
  case (Suc n)
  from background_one_receiving [OF Suc.prems]
  have 1: "receiving (background (Suc 0) c)" "pending (background (Suc 0) c) = pending c"
    "length (incoming (sock (background (Suc 0) c))) \<le> length (incoming (sock c))"
    by simp_all
  from Suc.IH [OF 1(1)] 1(2,3) show ?case
    by (simp add: background_Suc [of n c])
qed

lemma queue_get_wait_receiving:
  "receiving c \<Longrightarrow> pending c = f # rest \<Longrightarrow> length (incoming (sock c)) \<le> n \<Longrightarrow>
   int n \<le> tmax \<Longrightarrow>
   \<exists>c'. queue_get_wait tmax n c = (Inr f, c') \<and> receiving c' \<and> pending c' = rest
        \<and> length (incoming (sock c')) \<le> length (incoming (sock c))"
proof (induction n arbitrary: c)
  case 0
  then have "incoming (sock c) = []" by simp
  with 0 have "rxqueue c = f # rest" by (simp add: pending_def)
  with 0 show ?case by (simp add: receiving_def pending_def)
next
  case (Suc n)
  have m: "int n \<le> tmax" "\<not> tmax < int (Suc n)" using Suc.prems(4) by simp_all
  show ?case
  proof (cases "rxqueue c")
    case (Cons f' q)
    with Suc.prems have "f' = f" "pending (c\<lparr>rxqueue := q\<rparr>) = rest"
      by (simp_all add: pending_def)
    with Cons Suc.prems show ?thesis by (simp add: receiving_def)
  next
    case Nil
    let ?b = "background (Suc 0) c"
    from background_one_receiving [OF Suc.prems(1)] Suc.prems
    have b: "receiving ?b" "pending ?b = f # rest" "length (incoming (sock ?b)) \<le> n"
      "length (incoming (sock ?b)) \<le> length (incoming (sock c))"
      by simp_all
    from Suc.IH [OF b(1) b(2) b(3) m(1)] obtain c' where
      "queue_get_wait tmax n ?b = (Inr f, c')" "receiving c'" "pending c' = rest"
      "length (incoming (sock c')) \<le> length (incoming (sock ?b))" by blast
    with Nil b(4) m(2) show ?thesis by simp
  qed
qed

lemma wait_frame_receiving:
  assumes "receiving c" "pending c = f # rest" "int (length (incoming (sock c))) \<le> t"
    "t \<le> tmax"
  shows "\<exists>c'. wait_frame tmax t e c = (Inr (Some f), c') \<and> receiving c' \<and> pending c' = rest
        \<and> length (incoming (sock c')) \<le> length (incoming (sock c))"
proof -
  have t: "0 \<le> t" "length (incoming (sock c)) \<le> nat t" "int (nat t) \<le> tmax"
    using assms(3,4) by simp_all
  from queue_get_wait_receiving [OF assms(1) assms(2) t(2) t(3)] obtain c' where
    c': "queue_get_wait tmax (nat t) c = (Inr f, c')" "receiving c'" "pending c' = rest"
      "length (incoming (sock c')) \<le> length (incoming (sock c))" by blast
  have "opened c" using assms(1) by (simp add: receiving_def)
  then have "wait_frame tmax t e c = (Inr (Some f), c')"
    using t(1) c'(1) by (simp add: wait_frame_def specific_wait_frame_def queue_get_def)
  with c' show ?thesis by blast
qed

lemma wait_frame_nothing_pending:
  assumes "receiving c" "pending c = []" "0 \<le> t" "t \<le> tmax"
  shows "wait_frame tmax t e c = (timed_out t e, background (nat t) c)"
proof -
  have "rxqueue (background i c) = []" for i
    using background_receiving [OF assms(1), of i] assms(2) by (simp add: pending_def)
  then have "\<forall>i\<le>nat t. rxqueue (background i c) = []" by simp
  moreover have "opened c" using assms(1) by (simp add: receiving_def)
  ultimately show ?thesis using wait_frame_timed_out [of c t tmax e] assms(3,4) by simp
qed

lemma wait_frames_receiving:
  "receiving c \<Longrightarrow> int (length (incoming (sock c))) \<le> t \<Longrightarrow> t \<le> tmax \<Longrightarrow>
   length calls = length (pending c) \<Longrightarrow>
   fst (wait_frames tmax t calls c) = map (\<lambda>f. Inr (Some f)) (pending c)
   \<and> receiving (snd (wait_frames tmax t calls c))
   \<and> pending (snd (wait_frames tmax t calls c)) = []"
proof (induction calls arbitrary: c)
  case Nil
  then show ?case by simp
next
  case (Cons call calls)
  obtain g e where call: "call = (g, e)" by (cases call)
  from Cons.prems(4) obtain f rest where p: "pending c = f # rest"
    by (cases "pending c") simp_all
  let ?b = "background g c"
  from background_receiving [OF Cons.prems(1), of g] p Cons.prems(2)
  have b: "receiving ?b" "pending ?b = f # rest" "int (length (incoming (sock ?b))) \<le> t"
    by simp_all
  from wait_frame_receiving [OF b Cons.prems(3), of e] obtain c' where
    c': "wait_frame tmax t e ?b = (Inr (Some f), c')" "receiving c'" "pending c' = rest"
      "length (incoming (sock c')) \<le> length (incoming (sock ?b))" by blast
  have l: "int (length (incoming (sock c'))) \<le> t" "length calls = length (pending c')"
    using c'(3,4) b(3) Cons.prems(4) p by simp_all
  from Cons.IH [OF c'(2) l(1) Cons.prems(3) l(2)] c'(1,3) p show ?case
    unfolding call by (simp only: wait_frames_Cons_fst wait_frames_Cons_snd) simp
qed

section \<open>Claims\<close>

text \<open>
  C1 (as stated: refuted). The claim is for every sufficient timeout. A timeout above
  \<open>threading.TIMEOUT_MAX\<close> is long enough for the frame to arrive, but when the frame is
  not yet in the queue at the call, \<open>queue.Queue.get\<close> raises \<open>OverflowError\<close> at once and
  \<open>wait_frame\<close> does not return the frame. Here the connection is opened, its loop is
  running and the transport is about to deliver the frame \<open>0x50\<close>.
\<close>

theorem wait_frame_fifo_counterexample:
  "opened (snd (open_connection (SocketConnection (new_transport [Returns (Some [0x50])]))))
   \<and> rxthread (snd (open_connection (SocketConnection (new_transport [Returns (Some [0x50])]))))
       = Alive
   \<and> frames_of (incoming (sock
        (snd (open_connection (SocketConnection (new_transport [Returns (Some [0x50])]))))))
       = [[0x50]]
   \<and> fst (wait_frame 9223372036 10000000000 False
        (snd (open_connection (SocketConnection (new_transport [Returns (Some [0x50])])))))
       = Inl OverflowError
   \<and> fst (wait_frame 9223372036 1 False
        (snd (open_connection (SocketConnection (new_transport [Returns (Some [0x50])])))))
       = Inr (Some [0x50])"
proof -
  let ?c = "snd (open_connection (SocketConnection (new_transport [Returns (Some [0x50])])))"
  have o: "opened ?c" by (simp add: eval_defs)
  have q: "rxqueue ?c = []" by (simp add: eval_defs)
  have a: "rxthread ?c = Alive" by (simp add: eval_defs)
  have f: "frames_of (incoming (sock ?c)) = [[0x50]]" by (simp add: eval_defs)
  have w: "fst (wait_frame 9223372036 10000000000 False ?c) = Inl OverflowError"
    using wait_frame_overflow [OF o q, of 10000000000 9223372036 False] by simp
  have v: "fst (wait_frame 9223372036 1 False ?c) = Inr (Some [0x50])"
    by (simp add: wait_frame_def specific_wait_frame_def queue_get_def eval_defs)
  from o a f w v show ?thesis by blast
qed

text \<open>
  C1 (amended). The connection is opened, its receive loop is running, and no transport
  read fails. Let \<open>fs\<close> be the frames the transport delivers, in order: those already in
  the queue followed by those among the coming \<open>recv\<close> outcomes (which may be interleaved
  with transport timeouts and \<open>None\<close> results). Then as many successive \<open>wait_frame\<close>
  calls as there are frames, with either value of the \<open>exception\<close> flag in each call,
  with a timeout that covers the outstanding \<open>recv\<close> outcomes and is not above
  \<open>threading.TIMEOUT_MAX\<close>, and with any scheduling of the background thread between the
  calls, return exactly \<open>fs\<close> in that order. Afterwards no frame is left in the queue or
  in the transport, and one more \<open>wait_frame\<close> call times out: no frame is delivered
  twice.
\<close>

theorem wait_frame_fifo:
  assumes "opened c" and "rxthread c = Alive" and "\<not> exit_requested c"
    and "RaisesException \<notin> set (incoming (sock c))"
    and "rxqueue c @ frames_of (incoming (sock c)) = fs"
    and "int (length (incoming (sock c))) \<le> timeout" and "timeout \<le> timeout_max"
    and "length calls = length fs"
  shows "fst (wait_frames timeout_max timeout calls c) = map (\<lambda>f. Inr (Some f)) fs
       \<and> rxqueue (snd (wait_frames timeout_max timeout calls c)) = []
       \<and> frames_of (incoming (sock (snd (wait_frames timeout_max timeout calls c)))) = []
       \<and> fst (wait_frame timeout_max timeout exception
                (background g (snd (wait_frames timeout_max timeout calls c))))
           = timed_out timeout exception"
proof -
  have r: "receiving c" using assms(1-4) by (simp add: receiving_def)
  have p: "pending c = fs" using assms(5) by (simp add: pending_def)
  have t: "0 \<le> timeout" using assms(6) by simp
  let ?d = "snd (wait_frames timeout_max timeout calls c)"
  from wait_frames_receiving [OF r assms(6) assms(7), of calls] assms(8) p
  have w: "fst (wait_frames timeout_max timeout calls c) = map (\<lambda>f. Inr (Some f)) fs"
    "receiving ?d" "pending ?d = []" by simp_all
  from background_receiving [OF w(2), of g] w(3)
  have "receiving (background g ?d)" "pending (background g ?d) = []" by simp_all
  from wait_frame_nothing_pending [OF this t assms(7), of exception]
  have "fst (wait_frame timeout_max timeout exception (background g ?d))
      = timed_out timeout exception" by simp
  with w show ?thesis by (simp add: pending_def)
qed

theorem wait_frame_fifo_witness:
  "fst (wait_frames 9223372036 5 [(0, False), (2, True), (0, False)]
     (snd (open_connection (SocketConnection
       (new_transport [Returns (Some [0x50, 0x03]), RaisesTimeout, Returns (Some []),
                       Returns None, Returns (Some [0x7F])])))))
   = [Inr (Some [0x50, 0x03]), Inr (Some []), Inr (Some [0x7F])]"
proof -
  let ?c = "snd (open_connection (SocketConnection
     (new_transport [Returns (Some [0x50, 0x03]), RaisesTimeout, Returns (Some []),
                     Returns None, Returns (Some [0x7F])])))"
  have h1: "opened ?c" by (simp add: eval_defs)
  have h2: "rxthread ?c = Alive" by (simp add: eval_defs)
  have h3: "\<not> exit_requested ?c" by (simp add: eval_defs)
  have h4: "RaisesException \<notin> set (incoming (sock ?c))" by (simp add: eval_defs)
  have h5: "rxqueue ?c @ frames_of (incoming (sock ?c)) = [[0x50, 0x03], [], [0x7F]]"
    by (simp add: eval_defs)
  have h6: "int (length (incoming (sock ?c))) \<le> 5" by (simp add: eval_defs)
  have h7: "(5::int) \<le> 9223372036" by simp
  have h8: "length [(0::nat, False), (2, True), (0, False)]
      = length [[0x50, 0x03], [], [0x7F::8 word]]" by simp
  from wait_frame_fifo [OF h1 h2 h3 h4 h5 h6 h7 h8, of False 0] show ?thesis by simp
qed

text \<open>
  C2 (as stated: refuted). The claim is for every call on an open connection during which
  no frame becomes available. On an opened connection with an idle transport a negative
  timeout makes \<open>queue.Queue.get\<close> raise \<open>ValueError\<close>, and a timeout above
  \<open>threading.TIMEOUT_MAX\<close> makes it raise \<open>OverflowError\<close>; \<open>specific_wait_frame\<close>
  catches \<open>queue.Empty\<close> only, so with either flag the call neither returns \<open>None\<close> nor
  raises \<open>TimeoutException\<close>.
\<close>

theorem wait_frame_timeout_counterexample:
  "opened (snd (open_connection (SocketConnection (new_transport []))))
   \<and> rxqueue (snd (open_connection (SocketConnection (new_transport [])))) = []
   \<and> incoming (sock (snd (open_connection (SocketConnection (new_transport []))))) = []
   \<and> fst (wait_frame 9223372036 (- 1) False
        (snd (open_connection (SocketConnection (new_transport []))))) = Inl ValueError
   \<and> fst (wait_frame 9223372036 (- 1) True
        (snd (open_connection (SocketConnection (new_transport []))))) = Inl ValueError
   \<and> fst (wait_frame 9223372036 10000000000 False
        (snd (open_connection (SocketConnection (new_transport []))))) = Inl OverflowError
   \<and> fst (wait_frame 9223372036 10000000000 True
        (snd (open_connection (SocketConnection (new_transport []))))) = Inl OverflowError"
proof -
  let ?c = "snd (open_connection (SocketConnection (new_transport [])))"
  have o: "opened ?c" by (simp add: eval_defs)
  have q: "rxqueue ?c = []" by (simp add: eval_defs)
  have i: "incoming (sock ?c) = []" by (simp add: eval_defs)
  have n: "fst (wait_frame 9223372036 (- 1) e ?c) = Inl ValueError" for e
    using wait_frame_negative [OF o, of "- 1" 9223372036 e] by simp
  have v: "fst (wait_frame 9223372036 10000000000 e ?c) = Inl OverflowError" for e
    using wait_frame_overflow [OF o q, of 10000000000 9223372036 e] by simp
  from o q i n v show ?thesis by blast
qed

text \<open>
  C2 (amended). On an open connection, for a timeout from 0 to \<open>threading.TIMEOUT_MAX\<close>,
  when no frame becomes available within the timeout (the queue is empty at the call and
  stays empty at every step of the background thread up to the deadline), \<open>wait_frame\<close>
  returns \<open>None\<close> if \<open>exception\<close> is false and raises \<open>TimeoutException\<close> made from
  the timeout value if it is true. The call leaves the connection as the background
  thread alone would have left it: still opened, \<open>is_open\<close> unchanged.
\<close>

theorem wait_frame_timeout_contract:
  assumes "opened c" and "0 \<le> timeout" and "timeout \<le> timeout_max"
    and "\<forall>i\<le>nat timeout. rxqueue (background i c) = []"
  shows "wait_frame timeout_max timeout False c = (Inr None, background (nat timeout) c)
       \<and> wait_frame timeout_max timeout True c
           = (Inl (TimeoutException timeout), background (nat timeout) c)
       \<and> opened (background (nat timeout) c)
       \<and> is_open (background (nat timeout) c) = is_open c"
  using assms wait_frame_timed_out [OF assms, of False] wait_frame_timed_out [OF assms, of True]
  by (simp add: timed_out_def)

theorem wait_frame_timeout_contract_witness:
  "opened (snd (open_connection (SocketConnection (new_transport []))))
   \<and> wait_frame 9223372036 2 False (snd (open_connection (SocketConnection (new_transport []))))
       = (Inr None, background 2 (snd (open_connection (SocketConnection (new_transport [])))))
   \<and> wait_frame 9223372036 2 True (snd (open_connection (SocketConnection (new_transport []))))
       = (Inl (TimeoutException 2),
          background 2 (snd (open_connection (SocketConnection (new_transport [])))))"
proof -
  let ?c = "snd (open_connection (SocketConnection (new_transport [])))"
  have h1: "opened ?c" by (simp add: eval_defs)
  have h2: "(0::int) \<le> 2" by simp
  have h3: "(2::int) \<le> 9223372036" by simp
  have h4: "\<forall>i\<le>nat 2. rxqueue (background i ?c) = []"
    by (simp add: eval_defs eval_nat_numeral le_Suc_eq all_conj_distrib)
  show ?thesis using wait_frame_timeout_contract [OF h1 h2 h3 h4] h1 by simp
qed

text \<open>
  C3 (as stated: refuted). The claim has \<open>send\<close> rejected on a connection that is not
  open, without touching the transport. \<open>BaseConnection.send\<close> and both
  \<open>specific_send\<close> never look at \<open>opened\<close>: on a \<open>SocketConnection\<close> that was never
  opened the payload is handed to the socket.
\<close>

theorem send_not_open_counterexample:
  "\<not> opened (SocketConnection (new_transport []))
   \<and> sent (sock (SocketConnection (new_transport []))) = []
   \<and> sent (sock (send id (Other [0x10, 0x03]) (SocketConnection (new_transport []))))
       = [[0x10, 0x03]]"
  by (simp add: send_eq SocketConnection_def new_transport_def)

text \<open>
  C3 (amended). A connection just constructed, or closed, is not opened. On a connection
  that is not opened \<open>wait_frame\<close> returns \<open>None\<close> when \<open>exception\<close> is false and raises
  \<open>RuntimeError("Connection is not opened")\<close> when it is true, for every timeout, and
  changes nothing (neither the queue nor the transport); \<open>send\<close> is not guarded and
  hands the payload to the transport all the same.
\<close>

theorem not_open_contract:
  "\<not> opened (SocketConnection s) \<and> \<not> opened (IsoTPConnection s) \<and> \<not> opened (close c0)
   \<and> (\<not> opened c \<longrightarrow>
        wait_frame timeout_max timeout False c = (Inr None, c)
      \<and> wait_frame timeout_max timeout True c
          = (Inl (RuntimeError ''Connection is not opened''), c)
      \<and> sent (sock (send get_payload (Other b) c)) = sent (sock c) @ [b])"
  by (simp add: wait_frame_not_opened send_eq SocketConnection_def IsoTPConnection_def)

theorem not_open_contract_witness:
  "\<not> opened (close (snd (open_connection (IsoTPConnection (new_transport [])))))
   \<and> wait_frame 9223372036 2 False
        (close (snd (open_connection (IsoTPConnection (new_transport [])))))
       = (Inr None, close (snd (open_connection (IsoTPConnection (new_transport [])))))
   \<and> wait_frame 9223372036 2 True
        (close (snd (open_connection (IsoTPConnection (new_transport [])))))
       = (Inl (RuntimeError ''Connection is not opened''),
          close (snd (open_connection (IsoTPConnection (new_transport [])))))
   \<and> sent (sock (send id (Other [0x10, 0x03])
        (close (snd (open_connection (IsoTPConnection (new_transport [])))))))
       = [[0x10, 0x03]]"
proof -
  let ?c = "close (snd (open_connection (IsoTPConnection (new_transport []))))"
  have h: "\<not> opened ?c" by (simp add: eval_defs)
  have s: "sent (sock ?c) = []" by (simp add: eval_defs)
  show ?thesis
    using not_open_contract [of "new_transport []"
        "snd (open_connection (IsoTPConnection (new_transport [])))" ?c 9223372036 2 id
        "[0x10, 0x03]"] h s
    by simp
qed

text \<open>
  C4 (as stated: refuted). The claim has a datum pushed only when it is non-empty. The
  loop tests \<open>data is not None\<close>: an empty byte string returned by \<open>recv\<close> is pushed.
\<close>

theorem empty_datum_pushed_counterexample:
  "fst (transport_recv (sock (snd (open_connection (SocketConnection (new_transport [Returns (Some [])]))))))
     = Returns (Some [])
   \<and> rxqueue (snd (open_connection (SocketConnection (new_transport [Returns (Some [])])))) = []
   \<and> rxqueue (rxthread_iteration
        (snd (open_connection (SocketConnection (new_transport [Returns (Some [])]))))) = [[]]"
  by (simp add: eval_defs)

text \<open>
  C4 (amended). In every iteration of the receive loop the datum returned by the transport
  read is pushed onto the queue exactly when it is not \<open>None\<close> (an empty byte string is
  pushed too), and nothing else is pushed. Over any number of iterations the queue grows
  by exactly the non-\<open>None\<close> data received up to the first read that fails with an
  exception other than the timeout, each once, in order of receipt.
\<close>

theorem receive_loop_pushes:
  "rxqueue (rxthread_iteration c) = rxqueue c @ frames_of [fst (transport_recv (sock c))]
   \<and> (\<not> exit_requested c \<longrightarrow>
        rxqueue (rxthread_task n c) =
        rxqueue c @ frames_of (takeWhile (\<lambda>r. r \<noteq> RaisesException) (take n (incoming (sock c)))))"
  using rxthread_iteration_rxqueue [of c] rxthread_task_rxqueue [of c n] by blast

theorem receive_loop_pushes_witness:
  "rxqueue (rxthread_task 5 (snd (open_connection (SocketConnection
      (new_transport [Returns (Some [0x50, 0x03]), RaisesTimeout, Returns None, Returns (Some []),
                      Returns (Some [0x7F]), RaisesException, Returns (Some [0x01])])))))
   = [[0x50, 0x03], [], [0x7F]]"
proof -
  let ?c = "snd (open_connection (SocketConnection
      (new_transport [Returns (Some [0x50, 0x03]), RaisesTimeout, Returns None, Returns (Some []),
                      Returns (Some [0x7F]), RaisesException, Returns (Some [0x01])])))"
  have h: "\<not> exit_requested ?c" by (simp add: eval_defs)
  have q: "rxqueue ?c = []" by (simp add: eval_defs)
  have i: "incoming (sock ?c) = [Returns (Some [0x50, 0x03]), RaisesTimeout, Returns None, Returns (Some []),
                      Returns (Some [0x7F]), RaisesException, Returns (Some [0x01])]" by (simp add: eval_defs)
  from receive_loop_pushes [of ?c 5] h
  have "rxqueue (rxthread_task 5 ?c) =
        rxqueue ?c @ frames_of (takeWhile (\<lambda>r. r \<noteq> RaisesException) (take 5 (incoming (sock ?c))))"
    by blast
  then show ?thesis unfolding q i by simp
qed

text \<open>
  C5 (as stated: refuted). The claim has \<open>close()\<close> release the transport handle of every
  open connection. \<open>SocketConnection.close\<close> sets the two flags only: the socket it was
  given is not closed and not changed.
\<close>

theorem close_stream_counterexample:
  "is_open (snd (open_connection (SocketConnection (new_transport []))))
   \<and> \<not> closed (sock (close (snd (open_connection (SocketConnection (new_transport []))))))
   \<and> sock (close (snd (open_connection (SocketConnection (new_transport [])))))
       = sock (snd (open_connection (SocketConnection (new_transport []))))"
  by (simp add: eval_defs)

text \<open>
  C5 (amended). For every connection of either class, \<open>close()\<close> sets the lifecycle state
  to closed (\<open>opened\<close> and \<open>is_open\<close> become false) and signals the receive loop to stop
  through the flag \<open>exit_requested\<close>: the flag is set, and the loop returns the next time
  it tests the flag. The queue is not touched. \<open>IsoTPConnection.close\<close> also releases
  the transport (it calls \<open>close()\<close> on its socket); \<open>SocketConnection.close\<close> does not:
  it leaves the socket it was given as it is.
\<close>

theorem close_effect:
  "\<not> opened (close c) \<and> \<not> is_open (close c) \<and> exit_requested (close c)
   \<and> rxqueue (close c) = rxqueue c
   \<and> rxthread_task (Suc n) (close c) = (close c)\<lparr>rxthread := Finished\<rparr>
   \<and> (variant c = IsoTP \<longrightarrow> sock (close c) = transport_close (sock c) \<and> closed (sock (close c)))
   \<and> (variant c = Stream \<longrightarrow> sock (close c) = sock c)"
  by (simp add: close_def is_open_def transport_close_def split: variant.splits)

theorem close_effect_witness:
  "closed (sock (close (snd (open_connection (IsoTPConnection (new_transport []))))))
   \<and> sock (close (snd (open_connection (SocketConnection (new_transport [])))))
       = sock (snd (open_connection (SocketConnection (new_transport []))))"
proof -
  let ?c1 = "snd (open_connection (IsoTPConnection (new_transport [])))"
  let ?c2 = "snd (open_connection (SocketConnection (new_transport [])))"
  have v1: "variant ?c1 = IsoTP" by (simp add: eval_defs)
  have v2: "variant ?c2 = Stream" by (simp add: eval_defs)
  from close_effect [of ?c1 0] v1 have r1: "closed (sock (close ?c1))" by blast
  from close_effect [of ?c2 0] v2 have r2: "sock (close ?c2) = sock ?c2" by blast
  from r1 r2 show ?thesis by blast
qed

text \<open>
  C6 (the code at the failing input). A \<open>SocketConnection\<close> is opened, one frame
  \<open>0x50\<close> is received and queued, and the connection is closed. The second \<open>open()\<close>
  raises \<open>RuntimeError\<close>: \<open>self.rxthread\<close> is created once, in \<open>__init__\<close>, and a
  thread object cannot be started twice. The connection stays not opened (with
  \<open>exit_requested\<close> already cleared), and the frame of the first lifecycle is still in
  the queue.
\<close>

theorem reopen_fails:
  "opened (background 1 (snd (open_connection (SocketConnection (new_transport [Returns (Some [0x50])])))))
   \<and> open_connection (close (background 1
        (snd (open_connection (SocketConnection (new_transport [Returns (Some [0x50])]))))))
     = (Inl (RuntimeError ''threads can only be started once''),
        \<lparr>variant = Stream, rxqueue = [[0x50]], exit_requested = False, opened = False,
         rxthread = Alive,
         sock = \<lparr>incoming = [], recv_calls = 1, sent = [], bound = False, closed = False\<rparr>\<rparr>)"
  by (simp add: eval_defs)

text \<open>
  C7. \<open>empty_rxqueue\<close> terminates on every queue, leaves a connection with an empty queue
  as it is, and in general leaves the queue empty and everything else unchanged. On an
  opened connection, if no frame is pushed after the drain within the timeout (a timeout
  from 0 to \<open>threading.TIMEOUT_MAX\<close>), the next \<open>wait_frame\<close> times out (\<open>None\<close>, or
  \<open>TimeoutException\<close> with \<open>exception\<close> true), whatever was queued before the drain.
\<close>

theorem empty_rxqueue_drains:
  "(rxqueue c = [] \<longrightarrow> empty_rxqueue c = c)
   \<and> empty_rxqueue c = c\<lparr>rxqueue := []\<rparr>
   \<and> (opened c \<and> 0 \<le> timeout \<and> timeout \<le> timeout_max
        \<and> (\<forall>i\<le>nat timeout. rxqueue (background i (empty_rxqueue c)) = []) \<longrightarrow>
        wait_frame timeout_max timeout False (empty_rxqueue c)
          = (Inr None, background (nat timeout) (empty_rxqueue c))
      \<and> wait_frame timeout_max timeout True (empty_rxqueue c)
          = (Inl (TimeoutException timeout), background (nat timeout) (empty_rxqueue c)))"
proof -
  have a: "rxqueue c = [] \<longrightarrow> empty_rxqueue c = c" by (simp add: empty_rxqueue_eq)
  have b: "opened (empty_rxqueue c) = opened c" by (simp add: empty_rxqueue_eq)
  show ?thesis
    using a b wait_frame_timed_out [of "empty_rxqueue c" timeout timeout_max False]
      wait_frame_timed_out [of "empty_rxqueue c" timeout timeout_max True]
    by (simp add: empty_rxqueue_eq timed_out_def)
qed

theorem empty_rxqueue_drains_witness:
  "rxqueue (background 1 (snd (open_connection (SocketConnection (new_transport [Returns (Some [0x50])])))))
     = [[0x50]]
   \<and> fst (wait_frame 9223372036 1 False (empty_rxqueue (background 1
        (snd (open_connection (SocketConnection (new_transport [Returns (Some [0x50])])))))))
     = Inr None
   \<and> fst (wait_frame 9223372036 1 True (empty_rxqueue (background 1
        (snd (open_connection (SocketConnection (new_transport [Returns (Some [0x50])])))))))
     = Inl (TimeoutException 1)
   \<and> empty_rxqueue (SocketConnection (new_transport [])) = SocketConnection (new_transport [])"
proof -
  let ?c = "background 1 (snd (open_connection (SocketConnection (new_transport [Returns (Some [0x50])]))))"
  let ?d = "SocketConnection (new_transport [])"
  have q: "rxqueue ?c = [[0x50]]" by (simp add: eval_defs)
  have h: "opened ?c \<and> (0::int) \<le> 1 \<and> (1::int) \<le> 9223372036
         \<and> (\<forall>i\<le>nat 1. rxqueue (background i (empty_rxqueue ?c)) = [])"
    by (simp add: empty_rxqueue_eq eval_defs le_Suc_eq all_conj_distrib)
  have e: "rxqueue ?d = []" by (simp add: eval_defs)
  have r: "fst (wait_frame 9223372036 1 False (empty_rxqueue ?c)) = Inr None
         \<and> fst (wait_frame 9223372036 1 True (empty_rxqueue ?c)) = Inl (TimeoutException 1)"
    using empty_rxqueue_drains [of ?c 1 9223372036, THEN conjunct2, THEN conjunct2, THEN mp, OF h]
    by simp
  from empty_rxqueue_drains [of ?d 0 0] e have r2: "empty_rxqueue ?d = ?d" by blast
  from q r r2 show ?thesis by blast
qed

text \<open>
  C8. When a transport read of the running receive loop fails with an exception other
  than the timeout, that iteration sets \<open>exit_requested\<close>; the loop then stops (the
  thread finishes at its next test of the flag) and, however long it is scheduled
  afterwards, makes no further transport read and no further push: the transport stays
  as that read left it (later data is never read) and the queue stays as it was.
  \<open>opened\<close> and \<open>is_open\<close> are unchanged, and successive \<open>wait_frame\<close> calls (with a
  timeout from 0 to \<open>threading.TIMEOUT_MAX\<close>) return the frames already queued, in
  order, and then only time out (\<open>None\<close>, or \<open>TimeoutException\<close> in a call with
  \<open>exception\<close> true).
\<close>

theorem receive_loop_fatal_error:
  assumes "rxthread c = Alive" and "\<not> exit_requested c"
    and "incoming (sock c) = RaisesException # rest"
  shows "exit_requested (background (Suc 0) c)
       \<and> rxthread (background (Suc (Suc n)) c) = Finished
       \<and> sock (background (Suc n) c)
           = (sock c)\<lparr>incoming := rest, recv_calls := Suc (recv_calls (sock c))\<rparr>
       \<and> rxqueue (background (Suc n) c) = rxqueue c
       \<and> opened (background (Suc n) c) = opened c
       \<and> is_open (background (Suc n) c) = is_open c
       \<and> (opened c \<and> 0 \<le> timeout \<and> timeout \<le> timeout_max \<longrightarrow>
            fst (wait_frames timeout_max timeout calls (background (Suc n) c)) =
              map (\<lambda>f. Inr (Some f)) (take (length calls) (rxqueue c))
              @ map (\<lambda>call. timed_out timeout (snd call)) (drop (length (rxqueue c)) calls))
       \<and> (opened c \<and> 0 \<le> timeout \<and> timeout \<le> timeout_max \<and> rxqueue c = [] \<longrightarrow>
            fst (wait_frame timeout_max timeout False (background (Suc n) c)) = Inr None
          \<and> fst (wait_frame timeout_max timeout True (background (Suc n) c))
              = Inl (TimeoutException timeout))"
proof -
  let ?c1 = "background (Suc 0) c"
  have c1: "?c1 = c\<lparr>exit_requested := True,
           sock := (sock c)\<lparr>incoming := rest, recv_calls := Suc (recv_calls (sock c))\<rparr>\<rparr>"
    by (rule failing_read [OF assms])
  have e1: "exit_requested ?c1" by (simp add: c1)
  have n: "background (Suc n) c = background n ?c1" by (rule background_Suc)
  have st: "sock (background n ?c1) = sock ?c1" "rxqueue (background n ?c1) = rxqueue ?c1"
    "exit_requested (background n ?c1)"
    using background_stopped [OF e1, of n] by simp_all
  have fin: "rxthread (background (Suc (Suc n)) c) = Finished"
  proof -
    have "background (Suc (Suc n)) c = background (Suc n) ?c1" by (rule background_Suc)
    moreover have "rxthread ?c1 = Alive" using assms(1) by (simp add: c1)
    ultimately show ?thesis using e1 background_finishes [of ?c1 n] by simp
  qed
  have wf: "fst (wait_frames timeout_max timeout calls (background (Suc n) c)) =
              map (\<lambda>f. Inr (Some f)) (take (length calls) (rxqueue c))
              @ map (\<lambda>call. timed_out timeout (snd call)) (drop (length (rxqueue c)) calls)"
    if "opened c" "0 \<le> timeout" "timeout \<le> timeout_max"
  proof -
    have "opened (background n ?c1)" using that(1) by (simp add: c1)
    from wait_frames_stopped [OF this st(3) that(2) that(3), of calls] show ?thesis
      using n st(2) by (simp add: c1)
  qed
  have wt: "fst (wait_frame timeout_max timeout e (background (Suc n) c)) = timed_out timeout e"
    if "opened c" "0 \<le> timeout" "timeout \<le> timeout_max" "rxqueue c = []" for e
  proof -
    have o: "opened (background n ?c1)" using that(1) by (simp add: c1)
    have q: "rxqueue (background n ?c1) = []" using st(2) that(4) by (simp add: c1)
    from wait_frame_stopped_empty [OF o st(3) that(2) that(3) q, of e] show ?thesis
      using n by simp
  qed
  have wt2: "fst (wait_frame timeout_max timeout False (background (Suc n) c)) = Inr None
          \<and> fst (wait_frame timeout_max timeout True (background (Suc n) c))
              = Inl (TimeoutException timeout)"
    if "opened c" "0 \<le> timeout" "timeout \<le> timeout_max" "rxqueue c = []"
    using wt [OF that, of False] wt [OF that, of True] by (simp add: timed_out_def)
  have sk: "sock (background (Suc n) c)
           = (sock c)\<lparr>incoming := rest, recv_calls := Suc (recv_calls (sock c))\<rparr>"
    using n st(1) by (simp add: c1)
  have rq: "rxqueue (background (Suc n) c) = rxqueue c"
    using n st(2) by (simp add: c1)
  have op: "opened (background (Suc n) c) = opened c" by simp
  have io: "is_open (background (Suc n) c) = is_open c" by simp
  from e1 fin sk rq op io wf wt2 show ?thesis by blast
qed

theorem receive_loop_fatal_error_witness:
  "fst (wait_frames 9223372036 2 [(0, False), (3, False), (1, True)]
     (background (Suc (Suc 0)) (background (Suc 0)
       (snd (open_connection (SocketConnection
          (new_transport [Returns (Some [0x50]), RaisesException, Returns (Some [0x51])])))))))
   = [Inr (Some [0x50]), Inr None, Inl (TimeoutException 2)]
   \<and> is_open (background (Suc (Suc 0)) (background (Suc 0)
     (snd (open_connection (SocketConnection
        (new_transport [Returns (Some [0x50]), RaisesException, Returns (Some [0x51])]))))))
   \<and> rxthread (background (Suc (Suc 0)) (background (Suc 0)
     (snd (open_connection (SocketConnection
        (new_transport [Returns (Some [0x50]), RaisesException, Returns (Some [0x51])]))))))
     = Finished"
proof -
  let ?c0 = "snd (open_connection (SocketConnection
        (new_transport [Returns (Some [0x50]), RaisesException, Returns (Some [0x51])])))"
  let ?c = "background (Suc 0) ?c0"
  have h1: "rxthread ?c = Alive" by (simp add: eval_defs)
  have h2: "\<not> exit_requested ?c" by (simp add: eval_defs)
  have h3: "incoming (sock ?c) = RaisesException # [Returns (Some [0x51])]" by (simp add: eval_defs)
  have o: "opened ?c \<and> (0::int) \<le> 2 \<and> (2::int) \<le> 9223372036" by (simp add: eval_defs)
  have io: "is_open ?c" by (simp add: eval_defs)
  have q: "rxqueue ?c = [[0x50]]" by (simp add: eval_defs)
  note t = receive_loop_fatal_error [OF h1 h2 h3,
      of "Suc 0" 2 9223372036 "[(0, False), (3, False), (1, True)]"]
  note u = receive_loop_fatal_error [OF h1 h2 h3, of 0 2 9223372036 "[]"]
  have r1: "fst (wait_frames 9223372036 2 [(0, False), (3, False), (1, True)]
        (background (Suc (Suc 0)) ?c))
      = [Inr (Some [0x50]), Inr None, Inl (TimeoutException 2)]"
    using t o q by (simp add: timed_out_def)
  have r2: "is_open (background (Suc (Suc 0)) ?c)" using t io by simp
  have r3: "rxthread (background (Suc (Suc 0)) ?c) = Finished" using u by simp
  from r1 r2 r3 show ?thesis by blast
qed




text \<open>
  C10. \<open>send\<close> hands exactly one payload to the transport: \<open>obj.get_payload()\<close> when
  \<open>obj\<close> is a \<open>Request\<close> or a \<open>Response\<close>, and \<open>obj\<close> itself, unchanged, otherwise.
\<close>

theorem send_transmits_payload:
  "sent (sock (send get_payload (Request r) c)) = sent (sock c) @ [get_payload r]
   \<and> sent (sock (send get_payload (Response r) c)) = sent (sock c) @ [get_payload r]
   \<and> sent (sock (send get_payload (Other b) c)) = sent (sock c) @ [b]"
  by (simp add: send_eq)

end
